theory Spec2Isabelle
  imports Complex_Main "HOL-Library.AList"
begin

section \<open>The LED patching tool (utils/patch\_leds\_cli.py)\<close>

text \<open>
  A shallow embedding of the core of the tool: the dictionary of LEDs, the search for
  missing ids, the two neighbour searches, the interpolation and the patching loop.

  Conventions of the embedding.
  \<^item> Python's \<open>int\<close> is \<open>int\<close>.
  \<^item> Python's \<open>float\<close> is modelled by \<open>real\<close>: the arithmetic of the model is exact,
    the rounding of IEEE doubles is not part of it.
  \<^item> The dictionary \<open>leds\<close> is an association list in insertion order whose keys are
    distinct; \<open>leds[k] = v\<close> is \<open>AList.update k v leds\<close> (a present key keeps its place and
    gets the new value, a new key goes to the end), \<open>leds[k]\<close> is \<open>map_of leds k\<close>,
    \<open>leds.keys()\<close> is \<open>map fst leds\<close> and \<open>len(leds)\<close> is \<open>length leds\<close>.
  \<^item> An exception is a value \<open>Inl e\<close> of the type \<open>py_error + 'a\<close>.
  \<^item> What the tool prints is returned as a list of messages.
\<close>

subsection \<open>Data\<close>

text \<open>One LED: the dictionary with the keys \<open>x, y, z, xn, yn, zn, error\<close>.\<close>

record led =
  x :: real
  y :: real
  z :: real
  xn :: real
  yn :: real
  zn :: real
  error :: real

type_synonym leds = "(int \<times> led) list"

datatype py_error = KeyError int | ZeroDivisionError

text \<open>
  One parsed row of the CSV file. The columns \<open>index, x, y, z\<close> are read with
  \<open>row[...]\<close>, the columns \<open>xn, yn, zn, error\<close> with \<open>row.get(..., 0.0)\<close>: a column that
  the file does not have is \<open>None\<close> here. The conversion of the text of a field by
  \<open>int\<close> and \<open>float\<close> is not modelled.
\<close>

record csv_row =
  col_index :: int
  col_x :: real
  col_y :: real
  col_z :: real
  col_xn :: "real option"
  col_yn :: "real option"
  col_zn :: "real option"
  col_error :: "real option"

definition get_default :: "real option \<Rightarrow> real \<Rightarrow> real" where
  "get_default field d = (case field of None \<Rightarrow> d | Some v \<Rightarrow> v)"

definition led_of_row :: "csv_row \<Rightarrow> led" where
  "led_of_row row =
     \<lparr> x = col_x row, y = col_y row, z = col_z row,
       xn = get_default (col_xn row) 0,
       yn = get_default (col_yn row) 0,
       zn = get_default (col_zn row) 0,
       error = get_default (col_error row) 0 \<rparr>"

definition load_leds_from_csv :: "csv_row list \<Rightarrow> leds" where
  "load_leds_from_csv rows =
     fold (\<lambda>row leds. AList.update (col_index row) (led_of_row row) leds) rows []"

subsection \<open>Missing ids and nearest neighbours\<close>

text \<open>The set of the keys of the dictionary, \<open>set(leds.keys())\<close>.\<close>

definition existing_ids :: "leds \<Rightarrow> int set" where
  "existing_ids leds = set (map fst leds)"

definition find_missing_ids :: "leds \<Rightarrow> int \<Rightarrow> int list" where
  "find_missing_ids leds total_leds =
     (let all_ids = set [0 .. total_leds - 1]
      in sorted_list_of_set (all_ids - existing_ids leds))"

definition find_nearest_prev_led :: "leds \<Rightarrow> int \<Rightarrow> int option" where
  "find_nearest_prev_led leds led_id =
     (let prev_ids = filter (\<lambda>i. i < led_id) (map fst leds)
      in if prev_ids = [] then None else Some (Max (set prev_ids)))"

definition find_nearest_next_led :: "leds \<Rightarrow> int \<Rightarrow> int option" where
  "find_nearest_next_led leds led_id =
     (let next_ids = filter (\<lambda>i. i > led_id) (map fst leds)
      in if next_ids = [] then None else Some (Min (set next_ids)))"

subsection \<open>Interpolation\<close>

text \<open>
  \<open>leds[prev_id]\<close> and \<open>leds[next_id]\<close> raise \<open>KeyError\<close> for an absent key, and the
  division raises \<open>ZeroDivisionError\<close> when \<open>next_id = prev_id\<close>.
\<close>

definition interpolate_led :: "leds \<Rightarrow> int \<Rightarrow> int \<Rightarrow> int \<Rightarrow> py_error + led" where
  "interpolate_led leds led_id prev_id next_id =
     (case map_of leds prev_id of
        None \<Rightarrow> Inl (KeyError prev_id)
      | Some prev_led \<Rightarrow>
     (case map_of leds next_id of
        None \<Rightarrow> Inl (KeyError next_id)
      | Some next_led \<Rightarrow>
     (let total_gap = next_id - prev_id in
      if total_gap = 0 then Inl ZeroDivisionError
      else
        (let fraction = real_of_int (led_id - prev_id) / real_of_int total_gap in
         Inr \<lparr> x = x prev_led * (1 - fraction) + x next_led * fraction,
               y = y prev_led * (1 - fraction) + y next_led * fraction,
               z = z prev_led * (1 - fraction) + z next_led * fraction,
               xn = 0, yn = 0, zn = 0, error = 0 \<rparr>))))"

subsection \<open>The patching loop\<close>

text \<open>
  The \<open>for\<close> loop of \<open>patch_leds\<close> over \<open>missing_ids\<close>: the dictionary and the counter
  \<open>patched_this_iteration\<close> are threaded through; a record is written into the
  dictionary as soon as it is computed.
\<close>

fun patch_missing :: "int list \<Rightarrow> leds \<Rightarrow> int \<Rightarrow> py_error + (leds \<times> int)" where
  "patch_missing [] leds patched = Inr (leds, patched)"
| "patch_missing (led_id # rest) leds patched =
     (case find_nearest_prev_led leds led_id of
        None \<Rightarrow> patch_missing rest leds patched
      | Some prev_id \<Rightarrow>
     (case find_nearest_next_led leds led_id of
        None \<Rightarrow> patch_missing rest leds patched
      | Some next_id \<Rightarrow>
     (case interpolate_led leds led_id prev_id next_id of
        Inl e \<Rightarrow> Inl e
      | Inr new_led \<Rightarrow> patch_missing rest (AList.update led_id new_led leds) (patched + 1))))"

text \<open>The lines the tool prints, with the numbers they show.\<close>

datatype message =
    Loaded int
  | Target int
  | Could_not_patch int
  | Iteration_patched int int int int
  | Successfully_patched
  | Only_patched int int

text \<open>The three ways out of the \<open>while\<close> loop: its condition fails, or one of the two \<open>break\<close>s.\<close>

datatype loop_exit = Condition_false | Break_nothing_missing | Break_nothing_patched

text \<open>
  The result of a run: the dictionary that is returned, and as observations the final
  value of the loop counter \<open>iteration\<close>, the exit taken and the lines printed.
\<close>

record run =
  final_leds :: leds
  iterations :: int
  exit_taken :: loop_exit
  printed :: "message list"

function patch_loop :: "int \<Rightarrow> int \<Rightarrow> int \<Rightarrow> leds \<Rightarrow> message list \<Rightarrow> py_error + run" where
  "patch_loop total_leds max_iterations iteration leds out =
     (if int (length leds) < total_leds \<and> iteration < max_iterations then
        (if find_missing_ids leds total_leds = [] then
           Inr \<lparr> final_leds = leds, iterations = iteration + 1,
                 exit_taken = Break_nothing_missing, printed = out \<rparr>
         else
           (case patch_missing (find_missing_ids leds total_leds) leds 0 of
              Inl e \<Rightarrow> Inl e
            | Inr (leds', patched_this_iteration) \<Rightarrow>
                if patched_this_iteration = 0 then
                  Inr \<lparr> final_leds = leds', iterations = iteration + 1,
                        exit_taken = Break_nothing_patched,
                        printed = out @
                          [Could_not_patch (int (length (find_missing_ids leds total_leds)))] \<rparr>
                else
                  patch_loop total_leds max_iterations (iteration + 1) leds'
                    (out @ [Iteration_patched (iteration + 1) patched_this_iteration
                              (int (length leds')) total_leds])))
      else
        Inr \<lparr> final_leds = leds, iterations = iteration,
              exit_taken = Condition_false, printed = out \<rparr>)"
  by pat_completeness auto
termination
  by (relation "measure (\<lambda>(total_leds, max_iterations, iteration, leds, out).
        nat (max_iterations - iteration))") auto

declare patch_loop.simps [simp del]

definition patch_leds :: "csv_row list \<Rightarrow> int \<Rightarrow> int \<Rightarrow> py_error + run" where
  "patch_leds input_csv total_leds max_iterations =
     (let leds = load_leds_from_csv input_csv;
          out = [Loaded (int (length leds)), Target total_leds]
      in case patch_loop total_leds max_iterations 0 leds out of
           Inl e \<Rightarrow> Inl e
         | Inr r \<Rightarrow>
             Inr (r \<lparr> printed := printed r @
                    [if int (length (final_leds r)) = total_leds then Successfully_patched
                     else Only_patched (int (length (final_leds r))) total_leds] \<rparr>))"

subsection \<open>Notions of the specification\<close>

text \<open>
  A gap is an id that \<open>find_missing_ids\<close> returns. An id has both neighbours when some
  key of the dictionary is below it and some key is above it; a gap with both neighbours
  is an interior gap. An id is outside the span of the keys when it is below every key or
  above every key; a gap outside the span is an edge gap.
\<close>

definition has_both_neighbours :: "leds \<Rightarrow> int \<Rightarrow> bool" where
  "has_both_neighbours leds i \<longleftrightarrow>
     (\<exists>k \<in> existing_ids leds. k < i) \<and> (\<exists>k \<in> existing_ids leds. i < k)"

definition interior_gap :: "leds \<Rightarrow> int \<Rightarrow> int \<Rightarrow> bool" where
  "interior_gap leds total_leds i \<longleftrightarrow>
     i \<in> set (find_missing_ids leds total_leds) \<and> has_both_neighbours leds i"

definition outside_span :: "leds \<Rightarrow> int \<Rightarrow> bool" where
  "outside_span leds i \<longleftrightarrow>
     (\<forall>k \<in> existing_ids leds. i < k) \<or> (\<forall>k \<in> existing_ids leds. k < i)"

text \<open>
  The terminal states of the specification, read off the exit of the loop: the second
  \<open>break\<close> is STALLED, the first is CONVERGED, and a failing loop condition is CONVERGED
  when the dictionary has reached the target size and EXHAUSTED otherwise (the cap on
  the iterations was reached).
\<close>

datatype terminal = CONVERGED | STALLED | EXHAUSTED

definition terminal_state :: "int \<Rightarrow> run \<Rightarrow> terminal" where
  "terminal_state total_leds r =
     (case exit_taken r of
        Break_nothing_patched \<Rightarrow> STALLED
      | Break_nothing_missing \<Rightarrow> CONVERGED
      | Condition_false \<Rightarrow>
          if int (length (final_leds r)) < total_leds then EXHAUSTED else CONVERGED)"

text \<open>
  Data for the examples: an LED at a position with normal and error 0, and the row of a
  file for it (a row without the optional columns).
\<close>

definition led_at :: "real \<Rightarrow> real \<Rightarrow> real \<Rightarrow> led" where
  "led_at a b c = \<lparr> x = a, y = b, z = c, xn = 0, yn = 0, zn = 0, error = 0 \<rparr>"

definition row_at :: "int \<Rightarrow> real \<Rightarrow> real \<Rightarrow> real \<Rightarrow> csv_row" where
  "row_at i a b c =
     \<lparr> col_index = i, col_x = a, col_y = b, col_z = c,
       col_xn = None, col_yn = None, col_zn = None, col_error = None \<rparr>"

section \<open>Properties\<close>

subsection \<open>Missing ids\<close>

lemma find_missing_ids_filter:
  "find_missing_ids leds total_leds = filter (\<lambda>i. i \<notin> existing_ids leds) [0 .. total_leds - 1]"
proof -
  have "sorted_wrt (<) (filter (\<lambda>i. i \<notin> existing_ids leds) [0 .. total_leds - 1])"
    by (simp add: sorted_wrt_filter)
  moreover have "set (filter (\<lambda>i. i \<notin> existing_ids leds) [0 .. total_leds - 1]) = set [0 .. total_leds - 1] - existing_ids leds"
    by auto
  ultimately show ?thesis
    unfolding find_missing_ids_def Let_def
    by (metis sorted_list_of_set.idem_if_sorted_distinct strict_sorted_iff)
qed

lemma set_find_missing_ids:
  "set (find_missing_ids leds total_leds) = {i. 0 \<le> i \<and> i < total_leds \<and> i \<notin> existing_ids leds}"
  by (auto simp: find_missing_ids_filter)

lemma sorted_find_missing_ids: "sorted_wrt (<) (find_missing_ids leds total_leds)"
  by (simp add: find_missing_ids_filter sorted_wrt_filter)

lemma prev_Some_iff:
  "find_nearest_prev_led leds led_id = Some p \<longleftrightarrow>
     p \<in> existing_ids leds \<and> p < led_id \<and> (\<forall>k\<in>existing_ids leds. k < led_id \<longrightarrow> k \<le> p)"
proof -
  let ?A = "set (filter (\<lambda>i. i < led_id) (map fst leds))"
  have fin: "finite ?A" by simp
  have A: "?A = {k \<in> existing_ids leds. k < led_id}" by (auto simp: existing_ids_def)
  show ?thesis
  proof (cases "filter (\<lambda>i. i < led_id) (map fst leds) = []")
    case True
    then have "?A = {}" by simp
    with A True show ?thesis by (auto simp: find_nearest_prev_led_def)
  next
    case False
    then have ne: "?A \<noteq> {}" by (simp only: set_empty) simp
    have "Max ?A = p \<longleftrightarrow> p \<in> ?A \<and> (\<forall>k\<in>?A. k \<le> p)"
      using Max_eq_iff [OF fin ne] by blast
    with False A show ?thesis by (simp add: find_nearest_prev_led_def Let_def) blast
  qed
qed

lemma prev_None_iff:
  "find_nearest_prev_led leds led_id = None \<longleftrightarrow> (\<forall>k\<in>existing_ids leds. \<not> k < led_id)"
  by (auto simp: find_nearest_prev_led_def Let_def existing_ids_def filter_empty_conv)

lemma next_Some_iff:
  "find_nearest_next_led leds led_id = Some n \<longleftrightarrow>
     n \<in> existing_ids leds \<and> led_id < n \<and> (\<forall>k\<in>existing_ids leds. led_id < k \<longrightarrow> n \<le> k)"
proof -
  let ?A = "set (filter (\<lambda>i. i > led_id) (map fst leds))"
  have fin: "finite ?A" by simp
  have A: "?A = {k \<in> existing_ids leds. led_id < k}" by (auto simp: existing_ids_def)
  show ?thesis
  proof (cases "filter (\<lambda>i. i > led_id) (map fst leds) = []")
    case True
    then have "?A = {}" by simp
    with A True show ?thesis by (auto simp: find_nearest_next_led_def)
  next
    case False
    then have ne: "?A \<noteq> {}" by (simp only: set_empty) simp
    have "Min ?A = n \<longleftrightarrow> n \<in> ?A \<and> (\<forall>k\<in>?A. n \<le> k)"
      using Min_eq_iff [OF fin ne] by blast
    with False A show ?thesis by (simp add: find_nearest_next_led_def Let_def) blast
  qed
qed

lemma next_None_iff:
  "find_nearest_next_led leds led_id = None \<longleftrightarrow> (\<forall>k\<in>existing_ids leds. \<not> led_id < k)"
  by (auto simp: find_nearest_next_led_def Let_def existing_ids_def filter_empty_conv)

subsection \<open>One pass over the missing ids\<close>

lemma has_both_iff:
  "has_both_neighbours leds i \<longleftrightarrow>
     find_nearest_prev_led leds i \<noteq> None \<and> find_nearest_next_led leds i \<noteq> None"
  by (auto simp: has_both_neighbours_def prev_None_iff next_None_iff)

lemma existing_ids_update:
  "existing_ids (AList.update i v leds) = insert i (existing_ids leds)"
  by (simp add: existing_ids_def dom_update)

lemma has_both_update:
  "has_both_neighbours leds i \<Longrightarrow>
     has_both_neighbours (AList.update i v leds) j = has_both_neighbours leds j"
  unfolding has_both_neighbours_def existing_ids_update
  by (metis insert_iff less_trans)

lemma interpolate_led_ok:
  assumes "p \<in> existing_ids leds" "q \<in> existing_ids leds" "p \<noteq> q"
  shows "\<exists>v. interpolate_led leds i p q = Inr v"
proof -
  from assms(1) obtain pl where "map_of leds p = Some pl"
    by (metis existing_ids_def list.set_map map_of_eq_None_iff not_None_eq)
  moreover from assms(2) obtain ql where "map_of leds q = Some ql"
    by (metis existing_ids_def list.set_map map_of_eq_None_iff not_None_eq)
  ultimately show ?thesis using assms(3)
    by (simp add: interpolate_led_def Let_def)
qed

lemma patch_missing_step_skip:
  "\<not> has_both_neighbours leds i \<Longrightarrow>
     patch_missing (i # rest) leds n = patch_missing rest leds n"
  by (auto simp: has_both_iff split: option.splits)

lemma patch_missing_step_patch:
  assumes "has_both_neighbours leds i"
  shows "\<exists>p q v. find_nearest_prev_led leds i = Some p \<and> find_nearest_next_led leds i = Some q
           \<and> interpolate_led leds i p q = Inr v
           \<and> patch_missing (i # rest) leds n = patch_missing rest (AList.update i v leds) (n + 1)"
proof -
  from assms obtain p q where pq: "find_nearest_prev_led leds i = Some p"
      "find_nearest_next_led leds i = Some q"
    by (auto simp: has_both_iff)
  then have "p \<in> existing_ids leds" "q \<in> existing_ids leds" "p < i" "i < q"
    by (simp_all add: prev_Some_iff next_Some_iff)
  then obtain v where "interpolate_led leds i p q = Inr v"
    using interpolate_led_ok [of p leds q i] by auto
  with pq show ?thesis by simp
qed

lemma patch_missing_result:
  "\<exists>leds'. patch_missing ms leds n =
        Inr (leds', n + int (length (filter (has_both_neighbours leds) ms)))
     \<and> existing_ids leds' = existing_ids leds \<union> {i \<in> set ms. has_both_neighbours leds i}
     \<and> (\<forall>k. k \<notin> set ms \<longrightarrow> map_of leds' k = map_of leds k)
     \<and> (distinct (map fst leds) \<longrightarrow> distinct (map fst leds'))
     \<and> (\<forall>j. has_both_neighbours leds' j = has_both_neighbours leds j)"
proof (induction ms arbitrary: leds n)
  case Nil
  show ?case by simp
next
  case (Cons i rest)
  show ?case
  proof (cases "has_both_neighbours leds i")
    case False
    then have step: "patch_missing (i # rest) leds n = patch_missing rest leds n"
      by (rule patch_missing_step_skip)
    from Cons.IH [of leds n] False show ?thesis
      unfolding step by auto
  next
    case True
    from patch_missing_step_patch [OF True, of rest n] obtain v where
      step: "patch_missing (i # rest) leds n = patch_missing rest (AList.update i v leds) (n + 1)"
      by blast
    let ?L = "AList.update i v leds"
    have hb: "\<And>j. has_both_neighbours ?L j = has_both_neighbours leds j"
      by (rule has_both_update [OF True])
    from Cons.IH [of ?L "n + 1"] obtain leds' where
      r: "patch_missing rest ?L (n + 1) =
            Inr (leds', n + 1 + int (length (filter (has_both_neighbours ?L) rest)))"
      and ids: "existing_ids leds' = existing_ids ?L \<union> {i \<in> set rest. has_both_neighbours ?L i}"
      and frame: "\<forall>k. k \<notin> set rest \<longrightarrow> map_of leds' k = map_of ?L k"
      and dist: "distinct (map fst ?L) \<longrightarrow> distinct (map fst leds')"
      and hb': "\<forall>j. has_both_neighbours leds' j = has_both_neighbours ?L j"
      by blast
    have f: "filter (has_both_neighbours ?L) rest = filter (has_both_neighbours leds) rest"
      using hb by presburger
    have 1: "patch_missing (i # rest) leds n =
        Inr (leds', n + int (length (filter (has_both_neighbours leds) (i # rest))))"
      using step r True by (simp add: f)
    have 2: "existing_ids leds' =
        existing_ids leds \<union> {j \<in> set (i # rest). has_both_neighbours leds j}"
      using ids True by (auto simp: existing_ids_update hb)
    have 3: "\<forall>k. k \<notin> set (i # rest) \<longrightarrow> map_of leds' k = map_of leds k"
      using frame by (simp add: update_conv')
    have 4: "distinct (map fst leds) \<longrightarrow> distinct (map fst leds')"
      using dist by (simp add: distinct_update)
    have 5: "\<forall>j. has_both_neighbours leds' j = has_both_neighbours leds j"
      using hb' hb by simp
    from 1 2 3 4 5 show ?thesis by blast
  qed
qed

declare patch_missing.simps(2) [simp del]

lemma patch_missing_nothing:
  "\<forall>i \<in> set ms. \<not> has_both_neighbours leds i \<Longrightarrow> patch_missing ms leds n = Inr (leds, n)"
  by (induction ms) (simp_all add: patch_missing_step_skip)

lemma not_both_iff_outside:
  "i \<notin> existing_ids leds \<Longrightarrow> \<not> has_both_neighbours leds i \<longleftrightarrow> outside_span leds i"
  unfolding has_both_neighbours_def outside_span_def
  by (metis linorder_neqE_linordered_idom less_asym)

lemma missing_not_existing:
  "i \<in> set (find_missing_ids leds total_leds) \<Longrightarrow> i \<notin> existing_ids leds"
  by (simp add: set_find_missing_ids)

lemma find_missing_ids_after:
  assumes "existing_ids leds' =
     existing_ids leds \<union> {i \<in> set (find_missing_ids leds total_leds). has_both_neighbours leds i}"
  shows "find_missing_ids leds' total_leds =
     filter (\<lambda>i. \<not> has_both_neighbours leds i) (find_missing_ids leds total_leds)"
proof -
  have "\<And>i. i \<in> set [0 .. total_leds - 1] \<Longrightarrow>
      i \<notin> existing_ids leds' \<longleftrightarrow> i \<notin> existing_ids leds \<and> \<not> has_both_neighbours leds i"
    unfolding assms by (auto simp: set_find_missing_ids)
  then have "filter (\<lambda>i. i \<notin> existing_ids leds') [0 .. total_leds - 1] =
      filter (\<lambda>i. i \<notin> existing_ids leds \<and> \<not> has_both_neighbours leds i) [0 .. total_leds - 1]"
    by (intro filter_cong) auto
  then show ?thesis
    by (simp add: find_missing_ids_filter conj_commute)
qed

text \<open>The pass of one iteration, run on the missing ids of the dictionary.\<close>

lemma pass_on_missing:
  fixes leds total_leds
  defines "ms \<equiv> find_missing_ids leds total_leds"
  shows "\<exists>leds'. patch_missing ms leds 0 =
        Inr (leds', int (length (filter (has_both_neighbours leds) ms)))
     \<and> existing_ids leds' = existing_ids leds \<union> {i. interior_gap leds total_leds i}
     \<and> (\<forall>k \<in> existing_ids leds. map_of leds' k = map_of leds k)
     \<and> (distinct (map fst leds) \<longrightarrow> distinct (map fst leds'))
     \<and> (\<forall>j. has_both_neighbours leds' j = has_both_neighbours leds j)
     \<and> find_missing_ids leds' total_leds = filter (\<lambda>i. \<not> has_both_neighbours leds i) ms"
proof -
  from patch_missing_result [of ms leds 0] obtain leds' where
    r: "patch_missing ms leds 0 = Inr (leds', int (length (filter (has_both_neighbours leds) ms)))"
    and ids: "existing_ids leds' = existing_ids leds \<union> {i \<in> set ms. has_both_neighbours leds i}"
    and frame: "\<forall>k. k \<notin> set ms \<longrightarrow> map_of leds' k = map_of leds k"
    and dist: "distinct (map fst leds) \<longrightarrow> distinct (map fst leds')"
    and hb: "\<forall>j. has_both_neighbours leds' j = has_both_neighbours leds j"
    by auto
  have 2: "existing_ids leds' = existing_ids leds \<union> {i. interior_gap leds total_leds i}"
    using ids by (auto simp: interior_gap_def ms_def)
  have 3: "\<forall>k \<in> existing_ids leds. map_of leds' k = map_of leds k"
    using frame missing_not_existing [of _ leds total_leds] by (auto simp: ms_def)
  have 6: "find_missing_ids leds' total_leds = filter (\<lambda>i. \<not> has_both_neighbours leds i) ms"
    unfolding ms_def by (rule find_missing_ids_after) (use ids in \<open>simp add: ms_def\<close>)
  from r 2 3 dist hb 6 show ?thesis by blast
qed

subsection \<open>The loop\<close>

lemma patch_loop_stop:
  "\<not> (int (length leds) < total_leds \<and> iteration < max_iterations) \<Longrightarrow>
     patch_loop total_leds max_iterations iteration leds out =
       Inr \<lparr> final_leds = leds, iterations = iteration,
             exit_taken = Condition_false, printed = out \<rparr>"
  by (subst patch_loop.simps) auto

lemma patch_loop_complete:
  "int (length leds) < total_leds \<Longrightarrow> iteration < max_iterations \<Longrightarrow>
   find_missing_ids leds total_leds = [] \<Longrightarrow>
     patch_loop total_leds max_iterations iteration leds out =
       Inr \<lparr> final_leds = leds, iterations = iteration + 1,
             exit_taken = Break_nothing_missing, printed = out \<rparr>"
  by (subst patch_loop.simps) simp

lemma patch_loop_stall:
  assumes "int (length leds) < total_leds" "iteration < max_iterations"
    and "find_missing_ids leds total_leds \<noteq> []"
    and "\<forall>i \<in> set (find_missing_ids leds total_leds). \<not> has_both_neighbours leds i"
  shows "patch_loop total_leds max_iterations iteration leds out =
       Inr \<lparr> final_leds = leds, iterations = iteration + 1,
             exit_taken = Break_nothing_patched,
             printed = out @ [Could_not_patch (int (length (find_missing_ids leds total_leds)))] \<rparr>"
  using assms(1-3) patch_missing_nothing [OF assms(4), of 0]
  by (subst patch_loop.simps) simp

lemma patch_loop_progress:
  assumes "int (length leds) < total_leds" "iteration < max_iterations"
    and "patch_missing (find_missing_ids leds total_leds) leds 0 = Inr (leds', c)"
    and "c \<noteq> 0"
  shows "patch_loop total_leds max_iterations iteration leds out =
       patch_loop total_leds max_iterations (iteration + 1) leds'
         (out @ [Iteration_patched (iteration + 1) c (int (length leds')) total_leds])"
proof -
  have "find_missing_ids leds total_leds \<noteq> []"
    using assms(3,4) by auto
  then show ?thesis
    using assms by (subst patch_loop.simps) simp
qed

text \<open>
  A dictionary is settled when none of its missing ids has both neighbours. From a
  settled dictionary the loop returns at once, and one pass settles any dictionary.
\<close>

lemma patch_loop_settled:
  assumes "\<forall>i \<in> set (find_missing_ids leds total_leds). \<not> has_both_neighbours leds i"
  shows "patch_loop total_leds max_iterations iteration leds out =
     Inr \<lparr> final_leds = leds,
           iterations =
             (if int (length leds) < total_leds \<and> iteration < max_iterations
              then iteration + 1 else iteration),
           exit_taken =
             (if \<not> (int (length leds) < total_leds \<and> iteration < max_iterations)
              then Condition_false
              else if find_missing_ids leds total_leds = [] then Break_nothing_missing
              else Break_nothing_patched),
           printed =
             (if int (length leds) < total_leds \<and> iteration < max_iterations
                 \<and> find_missing_ids leds total_leds \<noteq> []
              then out @ [Could_not_patch (int (length (find_missing_ids leds total_leds)))]
              else out) \<rparr>"
proof (cases "int (length leds) < total_leds \<and> iteration < max_iterations")
  case False
  then show ?thesis by (subst patch_loop_stop) auto
next
  case True
  show ?thesis
  proof (cases "find_missing_ids leds total_leds = []")
    case True
    with \<open>int (length leds) < total_leds \<and> iteration < max_iterations\<close> show ?thesis
      by (simp add: patch_loop_complete)
  next
    case False
    with \<open>int (length leds) < total_leds \<and> iteration < max_iterations\<close> assms show ?thesis
      by (simp add: patch_loop_stall)
  qed
qed

lemma patch_loop_unsettled:
  assumes "int (length leds) < total_leds" "iteration < max_iterations"
    and "\<exists>i \<in> set (find_missing_ids leds total_leds). has_both_neighbours leds i"
  shows "\<exists>leds' c. patch_missing (find_missing_ids leds total_leds) leds 0 = Inr (leds', c)
     \<and> c = int (length (filter (has_both_neighbours leds) (find_missing_ids leds total_leds)))
     \<and> 0 < c
     \<and> (\<forall>i \<in> set (find_missing_ids leds' total_leds). \<not> has_both_neighbours leds' i)
     \<and> patch_loop total_leds max_iterations iteration leds out =
         patch_loop total_leds max_iterations (iteration + 1) leds'
           (out @ [Iteration_patched (iteration + 1) c (int (length leds')) total_leds])"
proof -
  let ?ms = "find_missing_ids leds total_leds"
  let ?c = "int (length (filter (has_both_neighbours leds) ?ms))"
  from pass_on_missing [of leds total_leds] obtain leds' where
    r: "patch_missing ?ms leds 0 = Inr (leds', ?c)"
    and hb: "\<forall>j. has_both_neighbours leds' j = has_both_neighbours leds j"
    and ms': "find_missing_ids leds' total_leds = filter (\<lambda>i. \<not> has_both_neighbours leds i) ?ms"
    by blast
  from assms(3) have "filter (has_both_neighbours leds) ?ms \<noteq> []"
    by (simp add: filter_empty_conv)
  then have c: "0 < ?c" by simp
  have settled: "\<forall>i \<in> set (find_missing_ids leds' total_leds). \<not> has_both_neighbours leds' i"
    by (simp add: ms' hb)
  have "patch_loop total_leds max_iterations iteration leds out =
         patch_loop total_leds max_iterations (iteration + 1) leds'
           (out @ [Iteration_patched (iteration + 1) ?c (int (length leds')) total_leds])"
    using c by (intro patch_loop_progress [OF assms(1,2) r]) simp
  with r c settled show ?thesis by blast
qed

text \<open>What every run of the loop satisfies, from any state.\<close>

lemma patch_loop_result:
  "\<exists>r. patch_loop total_leds max_iterations iteration leds out = Inr r
     \<and> existing_ids (final_leds r) =
         (if int (length leds) < total_leds \<and> iteration < max_iterations
          then existing_ids leds \<union> {i. interior_gap leds total_leds i} else existing_ids leds)
     \<and> (\<forall>k \<in> existing_ids leds. map_of (final_leds r) k = map_of leds k)
     \<and> (distinct (map fst leds) \<longrightarrow> distinct (map fst (final_leds r)))
     \<and> iteration \<le> iterations r \<and> iterations r \<le> iteration + 2
     \<and> (iteration + 2 \<le> max_iterations \<longrightarrow> exit_taken r = Condition_false \<longrightarrow>
          total_leds \<le> int (length (final_leds r)))"
proof (cases "\<forall>i \<in> set (find_missing_ids leds total_leds). \<not> has_both_neighbours leds i")
  case True
  then have "existing_ids leds \<union> {i. interior_gap leds total_leds i} = existing_ids leds"
    by (auto simp: interior_gap_def)
  then show ?thesis
    by (simp add: patch_loop_settled [OF True])
next
  case False
  then have ex: "\<exists>i \<in> set (find_missing_ids leds total_leds). has_both_neighbours leds i"
    by blast
  show ?thesis
  proof (cases "int (length leds) < total_leds \<and> iteration < max_iterations")
    case False
    then show ?thesis by (subst patch_loop_stop) auto
  next
    case True
    then have g: "int (length leds) < total_leds" "iteration < max_iterations" by simp_all
    from pass_on_missing [of leds total_leds] obtain leds1 c1 where
      p1: "patch_missing (find_missing_ids leds total_leds) leds 0 = Inr (leds1, c1)"
      and ids: "existing_ids leds1 = existing_ids leds \<union> {i. interior_gap leds total_leds i}"
      and frame: "\<forall>k \<in> existing_ids leds. map_of leds1 k = map_of leds k"
      and dist: "distinct (map fst leds) \<longrightarrow> distinct (map fst leds1)"
      by blast
    from patch_loop_unsettled [OF g ex, of out] p1 obtain c where
      settled: "\<forall>i \<in> set (find_missing_ids leds1 total_leds). \<not> has_both_neighbours leds1 i"
      and unfold: "patch_loop total_leds max_iterations iteration leds out =
         patch_loop total_leds max_iterations (iteration + 1) leds1
           (out @ [Iteration_patched (iteration + 1) c (int (length leds1)) total_leds])"
      by auto
    show ?thesis
      unfolding unfold patch_loop_settled [OF settled]
      using True ids frame dist by simp
  qed
qed

lemma settled_outside_iff:
  "(\<forall>i \<in> set (find_missing_ids leds total_leds). \<not> has_both_neighbours leds i) \<longleftrightarrow>
   (\<forall>i \<in> set (find_missing_ids leds total_leds). outside_span leds i)"
  using not_both_iff_outside missing_not_existing by blast

lemma interior_count:
  "int (length (filter (has_both_neighbours leds) (find_missing_ids leds total_leds))) =
     int (card {i. interior_gap leds total_leds i})"
proof -
  have "distinct (find_missing_ids leds total_leds)"
    using sorted_find_missing_ids [of leds total_leds] strict_sorted_iff by blast
  then have "length (filter (has_both_neighbours leds) (find_missing_ids leds total_leds)) =
      card ({i. has_both_neighbours leds i} \<inter> set (find_missing_ids leds total_leds))"
    by (rule distinct_length_filter)
  moreover have "{i. has_both_neighbours leds i} \<inter> set (find_missing_ids leds total_leds) =
      {i. interior_gap leds total_leds i}"
    by (auto simp: interior_gap_def)
  ultimately show ?thesis by simp
qed

lemma patch_loop_printed:
  assumes "\<forall>n. Could_not_patch n \<notin> set out"
  shows "\<exists>r. patch_loop total_leds max_iterations iteration leds out = Inr r
     \<and> (exit_taken r = Break_nothing_patched \<longleftrightarrow> (\<exists>n. Could_not_patch n \<in> set (printed r)))
     \<and> (exit_taken r = Break_nothing_patched \<longrightarrow>
          find_missing_ids (final_leds r) total_leds \<noteq> []
        \<and> (\<forall>i \<in> set (find_missing_ids (final_leds r) total_leds). outside_span (final_leds r) i)
        \<and> Could_not_patch (int (length (find_missing_ids (final_leds r) total_leds)))
            \<in> set (printed r)
        \<and> patch_missing (find_missing_ids (final_leds r) total_leds) (final_leds r) 0 =
            Inr (final_leds r, 0))"
proof (cases "\<forall>i \<in> set (find_missing_ids leds total_leds). \<not> has_both_neighbours leds i")
  case True
  from True have out: "\<forall>i \<in> set (find_missing_ids leds total_leds). outside_span leds i"
    by (simp add: settled_outside_iff)
  show ?thesis
    unfolding patch_loop_settled [OF True]
    using assms out patch_missing_nothing [OF True, of 0] by auto
next
  case False
  then have ex: "\<exists>i \<in> set (find_missing_ids leds total_leds). has_both_neighbours leds i"
    by blast
  show ?thesis
  proof (cases "int (length leds) < total_leds \<and> iteration < max_iterations")
    case False
    then show ?thesis using assms by (subst patch_loop_stop) auto
  next
    case True
    then have g: "int (length leds) < total_leds" "iteration < max_iterations" by simp_all
    from patch_loop_unsettled [OF g ex, of out] obtain leds1 c where
      settled: "\<forall>i \<in> set (find_missing_ids leds1 total_leds). \<not> has_both_neighbours leds1 i"
      and unfold: "patch_loop total_leds max_iterations iteration leds out =
         patch_loop total_leds max_iterations (iteration + 1) leds1
           (out @ [Iteration_patched (iteration + 1) c (int (length leds1)) total_leds])"
      by auto
    from settled have out: "\<forall>i \<in> set (find_missing_ids leds1 total_leds). outside_span leds1 i"
      by (simp add: settled_outside_iff)
    show ?thesis
      unfolding unfold patch_loop_settled [OF settled]
      using assms out patch_missing_nothing [OF settled, of 0] by auto
  qed
qed

subsection \<open>Loading and the whole run\<close>

lemma fold_update_distinct:
  "distinct (map fst acc) \<Longrightarrow>
     distinct (map fst (fold (\<lambda>row leds. AList.update (f row) (g row) leds) rows acc))"
  by (induction rows arbitrary: acc) (simp_all add: distinct_update)

lemma fold_update_ids:
  "fst ` set (fold (\<lambda>row leds. AList.update (f row) (g row) leds) rows acc) =
     f ` set rows \<union> fst ` set acc"
  by (induction rows arbitrary: acc) (auto simp: dom_update)

lemma distinct_load: "distinct (map fst (load_leds_from_csv rows))"
  unfolding load_leds_from_csv_def by (rule fold_update_distinct) simp

lemma existing_ids_load: "existing_ids (load_leds_from_csv rows) = col_index ` set rows"
  unfolding load_leds_from_csv_def existing_ids_def
  using fold_update_ids [of col_index led_of_row rows "[]"] by simp

lemma length_le_total:
  assumes "distinct (map fst leds)" "0 \<le> total_leds"
    and "\<forall>k \<in> existing_ids leds. 0 \<le> k \<and> k < total_leds"
  shows "int (length leds) \<le> total_leds"
proof -
  have "length leds = card (existing_ids leds)"
    using distinct_card [OF assms(1)] by (simp add: existing_ids_def)
  also have "\<dots> \<le> card {0 ..< total_leds}"
    using assms(3) by (intro card_mono) auto
  finally show ?thesis using assms(2) by simp
qed

lemma patch_leds_unfold:
  "patch_loop total_leds max_iterations 0 (load_leds_from_csv rows)
      [Loaded (int (length (load_leds_from_csv rows))), Target total_leds] = Inr r \<Longrightarrow>
   patch_leds rows total_leds max_iterations =
     Inr (r \<lparr> printed := printed r @
           [if int (length (final_leds r)) = total_leds then Successfully_patched
            else Only_patched (int (length (final_leds r))) total_leds] \<rparr>)"
  by (simp add: patch_leds_def Let_def)

text \<open>What every run of \<open>patch_leds\<close> satisfies.\<close>

lemma patch_leds_result:
  fixes rows total_leds max_iterations
  defines "leds \<equiv> load_leds_from_csv rows"
  shows "\<exists>r. patch_leds rows total_leds max_iterations = Inr r
     \<and> existing_ids (final_leds r) =
         (if int (length leds) < total_leds \<and> 0 < max_iterations
          then existing_ids leds \<union> {i. interior_gap leds total_leds i} else existing_ids leds)
     \<and> (\<forall>k \<in> existing_ids leds. map_of (final_leds r) k = map_of leds k)
     \<and> distinct (map fst (final_leds r))
     \<and> 0 \<le> iterations r \<and> iterations r \<le> 2
     \<and> (2 \<le> max_iterations \<longrightarrow> exit_taken r = Condition_false \<longrightarrow>
          total_leds \<le> int (length (final_leds r)))"
proof -
  let ?out = "[Loaded (int (length leds)), Target total_leds]"
  from patch_loop_result [of total_leds max_iterations 0 leds ?out] obtain r where
    r: "patch_loop total_leds max_iterations 0 leds ?out = Inr r"
    and ids: "existing_ids (final_leds r) =
         (if int (length leds) < total_leds \<and> 0 < max_iterations
          then existing_ids leds \<union> {i. interior_gap leds total_leds i} else existing_ids leds)"
    and frame: "\<forall>k \<in> existing_ids leds. map_of (final_leds r) k = map_of leds k"
    and dist: "distinct (map fst leds) \<longrightarrow> distinct (map fst (final_leds r))"
    and its: "0 \<le> iterations r" "iterations r \<le> 0 + 2"
    and ex: "0 + 2 \<le> max_iterations \<longrightarrow> exit_taken r = Condition_false \<longrightarrow>
          total_leds \<le> int (length (final_leds r))"
    by blast
  have "distinct (map fst (final_leds r))"
    using dist distinct_load [of rows] by (simp add: leds_def)
  with patch_leds_unfold [OF r [unfolded leds_def]] ids frame its ex show ?thesis
    by (simp add: leds_def)
qed

lemma patch_leds_printed:
  "\<exists>r. patch_leds rows total_leds max_iterations = Inr r
     \<and> (exit_taken r = Break_nothing_patched \<longleftrightarrow> (\<exists>n. Could_not_patch n \<in> set (printed r)))
     \<and> (exit_taken r = Break_nothing_patched \<longrightarrow>
          find_missing_ids (final_leds r) total_leds \<noteq> []
        \<and> (\<forall>i \<in> set (find_missing_ids (final_leds r) total_leds). outside_span (final_leds r) i)
        \<and> Could_not_patch (int (length (find_missing_ids (final_leds r) total_leds)))
            \<in> set (printed r)
        \<and> patch_missing (find_missing_ids (final_leds r) total_leds) (final_leds r) 0 =
            Inr (final_leds r, 0))"
proof -
  let ?leds = "load_leds_from_csv rows"
  let ?out = "[Loaded (int (length ?leds)), Target total_leds]"
  have "\<forall>n. Could_not_patch n \<notin> set ?out" by simp
  from patch_loop_printed [OF this, of total_leds max_iterations 0 ?leds] obtain r where
    r: "patch_loop total_leds max_iterations 0 ?leds ?out = Inr r"
    and 1: "exit_taken r = Break_nothing_patched \<longleftrightarrow> (\<exists>n. Could_not_patch n \<in> set (printed r))"
    and 2: "exit_taken r = Break_nothing_patched \<longrightarrow>
          find_missing_ids (final_leds r) total_leds \<noteq> []
        \<and> (\<forall>i \<in> set (find_missing_ids (final_leds r) total_leds). outside_span (final_leds r) i)
        \<and> Could_not_patch (int (length (find_missing_ids (final_leds r) total_leds)))
            \<in> set (printed r)
        \<and> patch_missing (find_missing_ids (final_leds r) total_leds) (final_leds r) 0 =
            Inr (final_leds r, 0)"
    by blast
  show ?thesis
    unfolding patch_leds_unfold [OF r] using 1 2 by auto
qed

lemmas eval_simps =
  patch_leds_def load_leds_from_csv_def row_at_def led_of_row_def get_default_def led_at_def
  patch_loop.simps patch_missing.simps find_missing_ids_filter existing_ids_def
  find_nearest_prev_led_def find_nearest_next_led_def interpolate_led_def Let_def upto.simps


lemma outside_not_both: "outside_span leds i \<Longrightarrow> \<not> has_both_neighbours leds i"
  unfolding outside_span_def has_both_neighbours_def by (meson less_asym)

lemma outside_not_existing: "outside_span leds i \<Longrightarrow> i \<notin> existing_ids leds"
  unfolding outside_span_def by blast

lemma outside_not_interior: "outside_span leds i \<Longrightarrow> \<not> interior_gap leds total_leds i"
  by (simp add: interior_gap_def outside_not_both)

lemma patch_missing_append:
  "patch_missing (before @ after) leds n =
     (case patch_missing before leds n of
        Inl e \<Rightarrow> Inl e
      | Inr (leds', n') \<Rightarrow> patch_missing after leds' n')"
proof (induction before arbitrary: leds n)
  case Nil
  show ?case by simp
next
  case (Cons i rest)
  show ?case
  proof (cases "has_both_neighbours leds i")
    case False
    then show ?thesis
      using Cons.IH [of leds n] by (simp add: patch_missing_step_skip)
  next
    case True
    from patch_missing_step_patch [OF True] obtain v where
      "\<And>rest n. patch_missing (i # rest) leds n =
          patch_missing rest (AList.update i v leds) (n + 1)"
      by (metis option.inject sum.inject(2))
    then show ?thesis
      using Cons.IH [of "AList.update i v leds" "n + 1"] by simp
  qed
qed

text \<open>One iteration whose pass runs: it patches nothing, and the loop ends, or it goes on.\<close>

lemma patch_loop_iteration:
  assumes "int (length leds) < total_leds" "iteration < max_iterations"
    and "find_missing_ids leds total_leds \<noteq> []"
  shows "\<exists>leds' patched.
       patch_missing (find_missing_ids leds total_leds) leds 0 = Inr (leds', patched)
     \<and> (patched = 0 \<longleftrightarrow>
          (\<forall>i \<in> set (find_missing_ids leds total_leds). outside_span leds i))
     \<and> (patched = 0 \<longleftrightarrow>
          patch_loop total_leds max_iterations iteration leds out =
            Inr \<lparr> final_leds = leds, iterations = iteration + 1,
                  exit_taken = Break_nothing_patched,
                  printed = out @
                    [Could_not_patch (int (length (find_missing_ids leds total_leds)))] \<rparr>)
     \<and> (patched \<noteq> 0 \<longrightarrow>
          patch_loop total_leds max_iterations iteration leds out =
            patch_loop total_leds max_iterations (iteration + 1) leds'
              (out @ [Iteration_patched (iteration + 1) patched (int (length leds'))
                        total_leds]))"
proof (cases "\<forall>i \<in> set (find_missing_ids leds total_leds). \<not> has_both_neighbours leds i")
  case True
  have "patch_missing (find_missing_ids leds total_leds) leds 0 = Inr (leds, 0)"
    by (rule patch_missing_nothing [OF True])
  moreover have "\<forall>i \<in> set (find_missing_ids leds total_leds). outside_span leds i"
    using True by (simp add: settled_outside_iff)
  moreover note patch_loop_stall [OF assms True, of out]
  ultimately show ?thesis by simp
next
  case False
  then have ex: "\<exists>i \<in> set (find_missing_ids leds total_leds). has_both_neighbours leds i"
    by blast
  from patch_loop_unsettled [OF assms(1,2) ex, of out] obtain leds' c where
    p: "patch_missing (find_missing_ids leds total_leds) leds 0 = Inr (leds', c)"
    and c: "0 < c"
    and settled: "\<forall>i \<in> set (find_missing_ids leds' total_leds). \<not> has_both_neighbours leds' i"
    and unfold: "patch_loop total_leds max_iterations iteration leds out =
         patch_loop total_leds max_iterations (iteration + 1) leds'
           (out @ [Iteration_patched (iteration + 1) c (int (length leds')) total_leds])"
    by blast
  have 1: "\<not> (\<forall>i \<in> set (find_missing_ids leds total_leds). outside_span leds i)"
    using False by (simp add: settled_outside_iff)
  have 2: "patch_loop total_leds max_iterations iteration leds out \<noteq>
            Inr \<lparr> final_leds = leds, iterations = iteration + 1,
                  exit_taken = Break_nothing_patched,
                  printed = out @
                    [Could_not_patch (int (length (find_missing_ids leds total_leds)))] \<rparr>"
    unfolding unfold patch_loop_settled [OF settled] by auto
  from p c 1 2 unfold show ?thesis by simp
qed

lemma pass_shrinks_missing:
  "\<exists>leds' patched.
       patch_missing (find_missing_ids leds total_leds) leds 0 = Inr (leds', patched)
     \<and> patched = int (card {i. interior_gap leds total_leds i})
     \<and> set (find_missing_ids leds' total_leds) =
         set (find_missing_ids leds total_leds) - {i. interior_gap leds total_leds i}
     \<and> int (length (find_missing_ids leds' total_leds)) =
         int (length (find_missing_ids leds total_leds)) - patched
     \<and> (\<forall>i. interior_gap leds total_leds i \<longrightarrow> i \<in> existing_ids leds')
     \<and> (\<forall>i \<in> set (find_missing_ids leds' total_leds). outside_span leds' i)"
proof -
  let ?ms = "find_missing_ids leds total_leds"
  from pass_on_missing [of leds total_leds] obtain leds' where
    p: "patch_missing ?ms leds 0 = Inr (leds', int (length (filter (has_both_neighbours leds) ?ms)))"
    and ids: "existing_ids leds' = existing_ids leds \<union> {i. interior_gap leds total_leds i}"
    and hb: "\<forall>j. has_both_neighbours leds' j = has_both_neighbours leds j"
    and ms': "find_missing_ids leds' total_leds = filter (\<lambda>i. \<not> has_both_neighbours leds i) ?ms"
    by blast
  have 1: "set (find_missing_ids leds' total_leds) = set ?ms - {i. interior_gap leds total_leds i}"
    unfolding ms' by (auto simp: interior_gap_def)
  have "length (filter (has_both_neighbours leds) ?ms)
      + length (filter (\<lambda>i. \<not> has_both_neighbours leds i) ?ms) = length ?ms"
    by (rule sum_length_filter_compl)
  then have 2: "int (length (find_missing_ids leds' total_leds)) =
      int (length ?ms) - int (length (filter (has_both_neighbours leds) ?ms))"
    unfolding ms' by linarith
  have "\<forall>i \<in> set (find_missing_ids leds' total_leds). \<not> has_both_neighbours leds' i"
    by (simp add: ms' hb)
  then have 3: "\<forall>i \<in> set (find_missing_ids leds' total_leds). outside_span leds' i"
    by (simp add: settled_outside_iff)
  from p 1 2 3 ids show ?thesis
    unfolding interior_count by blast
qed

lemma patch_loop_at_cap:
  "max_iterations \<le> iteration \<Longrightarrow>
     patch_loop total_leds max_iterations iteration leds out =
       Inr \<lparr> final_leds = leds, iterations = iteration,
             exit_taken = Condition_false, printed = out \<rparr>"
  by (rule patch_loop_stop) simp

lemma patch_loop_only_edge_gaps:
  assumes "\<forall>i \<in> set (find_missing_ids leds total_leds). outside_span leds i"
  shows "\<exists>r. patch_loop total_leds max_iterations iteration leds out = Inr r
     \<and> final_leds r = leds \<and> iterations r \<le> iteration + 1"
proof -
  from assms have "\<forall>i \<in> set (find_missing_ids leds total_leds). \<not> has_both_neighbours leds i"
    by (simp add: settled_outside_iff)
  then show ?thesis
    by (simp add: patch_loop_settled)
qed

section \<open>The claims\<close>

text \<open>
  Claim C8. \<open>find_missing_ids\<close> returns exactly the ids of \<open>[0, total_leds)\<close> that are
  not keys of the dictionary, in strictly ascending order; the result is empty if and
  only if every id of the range is a key. The function only reads the dictionary: it
  returns the list and nothing else.
\<close>

theorem find_missing_ids_spec:
  "set (find_missing_ids leds total_leds) =
       {i. 0 \<le> i \<and> i < total_leds \<and> i \<notin> existing_ids leds}
   \<and> sorted_wrt (<) (find_missing_ids leds total_leds)
   \<and> (find_missing_ids leds total_leds = [] \<longleftrightarrow>
        (\<forall>i. 0 \<le> i \<and> i < total_leds \<longrightarrow> i \<in> existing_ids leds))"
proof -
  have "find_missing_ids leds total_leds = [] \<longleftrightarrow>
        (\<forall>i. 0 \<le> i \<and> i < total_leds \<longrightarrow> i \<in> existing_ids leds)"
    unfolding set_empty [symmetric] set_find_missing_ids by blast
  then show ?thesis
    by (simp add: set_find_missing_ids sorted_find_missing_ids)
qed

theorem find_missing_ids_spec_witness:
  "find_missing_ids [(0, led_at 0 0 0), (2, led_at 1 1 1)] 4 = [1, 3]
   \<and> set (find_missing_ids [(0, led_at 0 0 0), (2, led_at 1 1 1)] 4) = {1, 3}
   \<and> find_missing_ids [(0, led_at 0 0 0), (1, led_at 1 1 1)] 2 = []
   \<and> existing_ids [(0, led_at 0 0 0), (1, led_at 1 1 1)] = {0, 1}"
  using find_missing_ids_spec [of "[(0, led_at 0 0 0), (2, led_at 1 1 1)]" 4]
    find_missing_ids_spec [of "[(0, led_at 0 0 0), (1, led_at 1 1 1)]" 2]
  by (simp add: find_missing_ids_filter existing_ids_def upto.simps)

text \<open>
  Claim C9. \<open>find_nearest_prev_led\<close> returns the greatest key strictly below the id and
  \<open>find_nearest_next_led\<close> the least key strictly above it; each returns \<open>None\<close> exactly
  when the dictionary has no such key. Both are functions of the dictionary they are
  given, that is, of its state at the call.
\<close>

theorem nearest_neighbours_spec:
  "(find_nearest_prev_led leds led_id = Some p \<longleftrightarrow>
      p \<in> existing_ids leds \<and> p < led_id \<and> (\<forall>k \<in> existing_ids leds. k < led_id \<longrightarrow> k \<le> p))
   \<and> (find_nearest_prev_led leds led_id = None \<longleftrightarrow> (\<forall>k \<in> existing_ids leds. \<not> k < led_id))
   \<and> (find_nearest_next_led leds led_id = Some n \<longleftrightarrow>
      n \<in> existing_ids leds \<and> led_id < n \<and> (\<forall>k \<in> existing_ids leds. led_id < k \<longrightarrow> n \<le> k))
   \<and> (find_nearest_next_led leds led_id = None \<longleftrightarrow> (\<forall>k \<in> existing_ids leds. \<not> led_id < k))"
  by (simp add: prev_Some_iff prev_None_iff next_Some_iff next_None_iff)

theorem nearest_neighbours_spec_witness:
  "find_nearest_prev_led [(7, led_at 0 0 0), (2, led_at 1 1 1), (4, led_at 2 2 2)] 5 = Some 4
   \<and> find_nearest_next_led [(7, led_at 0 0 0), (2, led_at 1 1 1), (4, led_at 2 2 2)] 5 = Some 7
   \<and> find_nearest_prev_led [(7, led_at 0 0 0), (2, led_at 1 1 1), (4, led_at 2 2 2)] 1 = None
   \<and> find_nearest_next_led [(7, led_at 0 0 0), (2, led_at 1 1 1), (4, led_at 2 2 2)] 8 = None"
  using
    nearest_neighbours_spec [of "[(7, led_at 0 0 0), (2, led_at 1 1 1), (4, led_at 2 2 2)]" 5 4 7]
    nearest_neighbours_spec [of "[(7, led_at 0 0 0), (2, led_at 1 1 1), (4, led_at 2 2 2)]" 1 0 0]
    nearest_neighbours_spec [of "[(7, led_at 0 0 0), (2, led_at 1 1 1), (4, led_at 2 2 2)]" 8 0 0]
  by (simp add: existing_ids_def)

text \<open>
  Claim C1, as amended. When the target is not negative and every index of the file lies
  in \<open>[0, total_leds)\<close>, the run returns a dictionary with at most \<open>total_leds\<close> entries
  whose keys all lie in \<open>[0, total_leds)\<close>.
\<close>

theorem patch_leds_size_and_keys:
  assumes "0 \<le> total_leds"
    and "\<forall>row \<in> set rows. 0 \<le> col_index row \<and> col_index row < total_leds"
  shows "\<exists>r. patch_leds rows total_leds max_iterations = Inr r
     \<and> int (length (final_leds r)) \<le> total_leds
     \<and> (\<forall>k \<in> existing_ids (final_leds r). 0 \<le> k \<and> k < total_leds)"
proof -
  let ?leds = "load_leds_from_csv rows"
  from patch_leds_result [of rows total_leds max_iterations] obtain r where
    r: "patch_leds rows total_leds max_iterations = Inr r"
    and ids: "existing_ids (final_leds r) =
         (if int (length ?leds) < total_leds \<and> 0 < max_iterations
          then existing_ids ?leds \<union> {i. interior_gap ?leds total_leds i} else existing_ids ?leds)"
    and dist: "distinct (map fst (final_leds r))"
    by blast
  have "existing_ids (final_leds r) \<subseteq> existing_ids ?leds \<union> {i. interior_gap ?leds total_leds i}"
    using ids by (auto split: if_splits)
  moreover have "\<forall>k \<in> existing_ids ?leds. 0 \<le> k \<and> k < total_leds"
    using assms(2) by (auto simp: existing_ids_load)
  moreover have "\<forall>k \<in> {i. interior_gap ?leds total_leds i}. 0 \<le> k \<and> k < total_leds"
    by (auto simp: interior_gap_def set_find_missing_ids)
  ultimately have keys: "\<forall>k \<in> existing_ids (final_leds r). 0 \<le> k \<and> k < total_leds"
    by blast
  from length_le_total [OF dist assms(1) keys] r keys show ?thesis by blast
qed

theorem patch_leds_size_and_keys_witness:
  "(0::int) \<le> 5
   \<and> 0 \<le> col_index (row_at 2 0 0 0) \<and> col_index (row_at 2 0 0 0) < 5
   \<and> 0 \<le> col_index (row_at 4 10 0 0) \<and> col_index (row_at 4 10 0 0) < 5
   \<and> patch_leds [row_at 2 0 0 0, row_at 4 10 0 0] 5 1000 =
     Inr \<lparr> final_leds = [(2, led_at 0 0 0), (4, led_at 10 0 0), (3, led_at 5 0 0)],
           iterations = 2, exit_taken = Break_nothing_patched,
           printed = [Loaded 2, Target 5, Iteration_patched 1 1 3 5, Could_not_patch 2,
                      Only_patched 3 5] \<rparr>
   \<and> int (length [(2::int, led_at 0 0 0), (4, led_at 10 0 0), (3, led_at 5 0 0)]) \<le> 5
   \<and> existing_ids [(2, led_at 0 0 0), (4, led_at 10 0 0), (3, led_at 5 0 0)] = {2, 4, 3}"
  using patch_leds_size_and_keys [of 5 "[row_at 2 0 0 0, row_at 4 10 0 0]" 1000]
  by (simp add: eval_simps)

text \<open>
  The claim as stated fails: nothing restricts the indices of the file or the target.
  With the indices 5 and 7 and the target 1 the loop is never entered and both entries
  are returned; with an empty file and the target \<open>-1\<close> the size 0 exceeds the target.
\<close>

theorem patch_leds_size_and_keys_counterexample:
  "patch_leds [row_at 5 0 0 0, row_at 7 1 1 1] 1 1000 =
     Inr \<lparr> final_leds = [(5, led_at 0 0 0), (7, led_at 1 1 1)], iterations = 0,
           exit_taken = Condition_false,
           printed = [Loaded 2, Target 1, Only_patched 2 1] \<rparr>
   \<and> \<not> int (length [(5::int, led_at 0 0 0), (7, led_at 1 1 1)]) \<le> 1
   \<and> 5 \<in> existing_ids [(5, led_at 0 0 0), (7, led_at 1 1 1)] \<and> \<not> (5::int) < 1
   \<and> patch_leds [] (- 1) 1000 =
     Inr \<lparr> final_leds = [], iterations = 0, exit_taken = Condition_false,
           printed = [Loaded 0, Target (- 1), Only_patched 0 (- 1)] \<rparr>
   \<and> \<not> int (length ([] :: leds)) \<le> - 1"
  by (simp add: eval_simps)



text \<open>
  Claim C6. An id that is below every key of the dictionary, or above every key, is
  never inserted: it is not a key of the dictionary that a run returns, whatever the
  target and the cap on the iterations; nor of the dictionary that the loop returns from
  any state, nor of the dictionary after a pass over any list of ids.
\<close>

theorem edge_gap_never_patched:
  "(outside_span (load_leds_from_csv rows) i \<longrightarrow>
      (\<exists>r. patch_leds rows total_leds max_iterations = Inr r
         \<and> i \<notin> existing_ids (final_leds r)))
   \<and> (outside_span leds i \<longrightarrow>
      (\<exists>r. patch_loop total_leds max_iterations iteration leds out = Inr r
         \<and> i \<notin> existing_ids (final_leds r)))
   \<and> (outside_span leds i \<longrightarrow>
      (\<exists>leds' n'. patch_missing ms leds n = Inr (leds', n') \<and> i \<notin> existing_ids leds'))"
proof (intro conjI impI)
  assume o: "outside_span (load_leds_from_csv rows) i"
  from patch_leds_result [of rows total_leds max_iterations] obtain r where
    "patch_leds rows total_leds max_iterations = Inr r"
    "existing_ids (final_leds r) \<subseteq> existing_ids (load_leds_from_csv rows)
        \<union> {i. interior_gap (load_leds_from_csv rows) total_leds i}"
    by (auto split: if_splits)
  with outside_not_existing [OF o] outside_not_interior [OF o, of total_leds]
  show "\<exists>r. patch_leds rows total_leds max_iterations = Inr r \<and> i \<notin> existing_ids (final_leds r)"
    by blast
next
  assume o: "outside_span leds i"
  from patch_loop_result [of total_leds max_iterations iteration leds out] obtain r where
    "patch_loop total_leds max_iterations iteration leds out = Inr r"
    "existing_ids (final_leds r) \<subseteq> existing_ids leds \<union> {i. interior_gap leds total_leds i}"
    by (auto split: if_splits)
  with outside_not_existing [OF o] outside_not_interior [OF o, of total_leds]
  show "\<exists>r. patch_loop total_leds max_iterations iteration leds out = Inr r
      \<and> i \<notin> existing_ids (final_leds r)"
    by blast
next
  assume o: "outside_span leds i"
  from patch_missing_result [of ms leds n] obtain leds' n' where
    "patch_missing ms leds n = Inr (leds', n')"
    "existing_ids leds' = existing_ids leds \<union> {i \<in> set ms. has_both_neighbours leds i}"
    by blast
  with outside_not_existing [OF o] outside_not_both [OF o]
  show "\<exists>leds' n'. patch_missing ms leds n = Inr (leds', n') \<and> i \<notin> existing_ids leds'"
    by blast
qed

theorem edge_gap_never_patched_witness:
  "outside_span (load_leds_from_csv [row_at 2 0 0 0, row_at 4 10 0 0]) 1
   \<and> outside_span [(2, led_at 0 0 0), (4, led_at 10 0 0)] 1
   \<and> patch_leds [row_at 2 0 0 0, row_at 4 10 0 0] 5 1000 =
     Inr \<lparr> final_leds = [(2, led_at 0 0 0), (4, led_at 10 0 0), (3, led_at 5 0 0)],
           iterations = 2, exit_taken = Break_nothing_patched,
           printed = [Loaded 2, Target 5, Iteration_patched 1 1 3 5, Could_not_patch 2,
                      Only_patched 3 5] \<rparr>
   \<and> 1 \<notin> existing_ids [(2, led_at 0 0 0), (4, led_at 10 0 0), (3, led_at 5 0 0)]
   \<and> patch_missing [0, 1, 3] [(2, led_at 0 0 0), (4, led_at 10 0 0)] 0 =
     Inr ([(2, led_at 0 0 0), (4, led_at 10 0 0), (3, led_at 5 0 0)], 1)"
  using edge_gap_never_patched [of "[row_at 2 0 0 0, row_at 4 10 0 0]" 1 5 1000
      "[(2, led_at 0 0 0), (4, led_at 10 0 0)]" 0 "[]" "[0, 1, 3]" 0]
  by (simp add: eval_simps outside_span_def)

text \<open>
  Claim C7. Every entry of the dictionary before patching is in the returned dictionary
  with the same record; the keys of the returned dictionary are those of the start and
  ids that were missing at the start. The same holds for the loop started in any state,
  so also for the entries that an earlier iteration inserted, and for one pass over ids
  that are not keys.
\<close>

theorem existing_entries_unchanged:
  "(\<exists>r. patch_leds rows total_leds max_iterations = Inr r
      \<and> (\<forall>k \<in> existing_ids (load_leds_from_csv rows).
            k \<in> existing_ids (final_leds r)
          \<and> map_of (final_leds r) k = map_of (load_leds_from_csv rows) k)
      \<and> existing_ids (final_leds r) - existing_ids (load_leds_from_csv rows)
            \<subseteq> set (find_missing_ids (load_leds_from_csv rows) total_leds))
   \<and> (\<exists>r. patch_loop total_leds max_iterations iteration leds out = Inr r
      \<and> (\<forall>k \<in> existing_ids leds.
            k \<in> existing_ids (final_leds r) \<and> map_of (final_leds r) k = map_of leds k)
      \<and> existing_ids (final_leds r) - existing_ids leds
            \<subseteq> set (find_missing_ids leds total_leds))
   \<and> (set ms \<inter> existing_ids leds = {} \<longrightarrow>
       (\<exists>leds' n'. patch_missing ms leds n = Inr (leds', n')
          \<and> (\<forall>k \<in> existing_ids leds.
                k \<in> existing_ids leds' \<and> map_of leds' k = map_of leds k)))"
proof (intro conjI impI)
  let ?leds = "load_leds_from_csv rows"
  from patch_leds_result [of rows total_leds max_iterations] obtain r where
    "patch_leds rows total_leds max_iterations = Inr r"
    "existing_ids ?leds \<subseteq> existing_ids (final_leds r)"
    "existing_ids (final_leds r) \<subseteq> existing_ids ?leds \<union> {i. interior_gap ?leds total_leds i}"
    "\<forall>k \<in> existing_ids ?leds. map_of (final_leds r) k = map_of ?leds k"
    by (auto split: if_splits)
  then show "\<exists>r. patch_leds rows total_leds max_iterations = Inr r
      \<and> (\<forall>k \<in> existing_ids ?leds.
            k \<in> existing_ids (final_leds r) \<and> map_of (final_leds r) k = map_of ?leds k)
      \<and> existing_ids (final_leds r) - existing_ids ?leds
            \<subseteq> set (find_missing_ids ?leds total_leds)"
    by (intro exI [of _ r]) (auto simp: interior_gap_def)
next
  from patch_loop_result [of total_leds max_iterations iteration leds out] obtain r where
    "patch_loop total_leds max_iterations iteration leds out = Inr r"
    "existing_ids leds \<subseteq> existing_ids (final_leds r)"
    "existing_ids (final_leds r) \<subseteq> existing_ids leds \<union> {i. interior_gap leds total_leds i}"
    "\<forall>k \<in> existing_ids leds. map_of (final_leds r) k = map_of leds k"
    by (auto split: if_splits)
  then show "\<exists>r. patch_loop total_leds max_iterations iteration leds out = Inr r
      \<and> (\<forall>k \<in> existing_ids leds.
            k \<in> existing_ids (final_leds r) \<and> map_of (final_leds r) k = map_of leds k)
      \<and> existing_ids (final_leds r) - existing_ids leds
            \<subseteq> set (find_missing_ids leds total_leds)"
    by (intro exI [of _ r]) (auto simp: interior_gap_def)
next
  assume d: "set ms \<inter> existing_ids leds = {}"
  from patch_missing_result [of ms leds n] obtain leds' n' where
    "patch_missing ms leds n = Inr (leds', n')"
    "existing_ids leds' = existing_ids leds \<union> {i \<in> set ms. has_both_neighbours leds i}"
    "\<forall>k. k \<notin> set ms \<longrightarrow> map_of leds' k = map_of leds k"
    by blast
  with d show "\<exists>leds' n'. patch_missing ms leds n = Inr (leds', n')
          \<and> (\<forall>k \<in> existing_ids leds.
                k \<in> existing_ids leds' \<and> map_of leds' k = map_of leds k)"
    by (intro exI [of _ leds'] exI [of _ n']) auto
qed

theorem existing_entries_unchanged_witness:
  "set [0, 1, 3] \<inter> existing_ids [(2, led_at 0 0 0), (4, led_at 10 0 0)] = {}
   \<and> patch_missing [0, 1, 3] [(2, led_at 0 0 0), (4, led_at 10 0 0)] 0 =
     Inr ([(2, led_at 0 0 0), (4, led_at 10 0 0), (3, led_at 5 0 0)], 1)
   \<and> load_leds_from_csv [row_at 2 0 0 0, row_at 4 10 0 0] =
       [(2, led_at 0 0 0), (4, led_at 10 0 0)]
   \<and> patch_leds [row_at 2 0 0 0, row_at 4 10 0 0] 5 1000 =
     Inr \<lparr> final_leds = [(2, led_at 0 0 0), (4, led_at 10 0 0), (3, led_at 5 0 0)],
           iterations = 2, exit_taken = Break_nothing_patched,
           printed = [Loaded 2, Target 5, Iteration_patched 1 1 3 5, Could_not_patch 2,
                      Only_patched 3 5] \<rparr>
   \<and> map_of [(2::int, led_at 0 0 0), (4, led_at 10 0 0), (3, led_at 5 0 0)] 2 =
       Some (led_at 0 0 0)
   \<and> map_of [(2::int, led_at 0 0 0), (4, led_at 10 0 0), (3, led_at 5 0 0)] 4 =
       Some (led_at 10 0 0)"
  using existing_entries_unchanged [of "[row_at 2 0 0 0, row_at 4 10 0 0]" 5 1000 0
      "[(2, led_at 0 0 0), (4, led_at 10 0 0)]" "[]" "[0, 1, 3]" 0]
  by (simp add: eval_simps)

text \<open>
  Claim C4. A pass writes each interpolated record into the dictionary at once: the ids
  after a point of the pass are visited with the dictionary as the ids before it left it.
  So a neighbour found for a later id can be an id that the same pass inserted: in the
  dictionary with the keys 0 and 5 and the target 6, the pass visits 1, 2, 3, 4; when 2
  is visited its nearest key below is 1, which was not a key when the pass began.
\<close>

theorem intra_iteration_propagation:
  "(\<forall>before after leds n.
      patch_missing (before @ after) leds n =
        (case patch_missing before leds n of
           Inl e \<Rightarrow> Inl e
         | Inr (leds', n') \<Rightarrow> patch_missing after leds' n'))
   \<and> (\<exists>leds total_leds before led_id after leds_now n p.
        find_missing_ids leds total_leds = before @ led_id # after
      \<and> patch_missing before leds 0 = Inr (leds_now, n)
      \<and> patch_missing (find_missing_ids leds total_leds) leds 0 =
          patch_missing (led_id # after) leds_now n
      \<and> find_nearest_prev_led leds_now led_id = Some p
      \<and> p \<notin> existing_ids leds \<and> p \<in> set before \<and> p \<in> existing_ids leds_now
      \<and> find_nearest_prev_led leds led_id \<noteq> Some p)"
proof (intro conjI allI)
  fix before after :: "int list" and leds :: leds and n :: int
  show "patch_missing (before @ after) leds n =
        (case patch_missing before leds n of
           Inl e \<Rightarrow> Inl e
         | Inr (leds', n') \<Rightarrow> patch_missing after leds' n')"
    by (rule patch_missing_append)
next
  let ?leds = "[(0, led_at 0 0 0), (5, led_at 10 0 0)] :: leds"
  let ?now = "[(0, led_at 0 0 0), (5, led_at 10 0 0), (1, led_at 2 0 0)] :: leds"
  have 1: "find_missing_ids ?leds 6 = [1] @ 2 # [3, 4]"
    by (simp add: eval_simps)
  have 2: "patch_missing [1] ?leds 0 = Inr (?now, 1)"
    by (simp add: eval_simps)
  have 3: "patch_missing (find_missing_ids ?leds 6) ?leds 0 = patch_missing (2 # [3, 4]) ?now 1"
    unfolding 1 patch_missing_append 2 by simp
  have 4: "find_nearest_prev_led ?now 2 = Some 1"
    by (simp add: eval_simps)
  have 5: "1 \<notin> existing_ids ?leds \<and> (1::int) \<in> set [1] \<and> 1 \<in> existing_ids ?now
      \<and> find_nearest_prev_led ?leds 2 \<noteq> Some 1"
    by (simp add: eval_simps)
  from 1 2 3 4 5
  show "\<exists>leds total_leds before led_id after leds_now n p.
        find_missing_ids leds total_leds = before @ led_id # after
      \<and> patch_missing before leds 0 = Inr (leds_now, n)
      \<and> patch_missing (find_missing_ids leds total_leds) leds 0 =
          patch_missing (led_id # after) leds_now n
      \<and> find_nearest_prev_led leds_now led_id = Some p
      \<and> p \<notin> existing_ids leds \<and> p \<in> set before \<and> p \<in> existing_ids leds_now
      \<and> find_nearest_prev_led leds led_id \<noteq> Some p"
    by blast
qed

theorem intra_iteration_propagation_witness:
  "patch_missing ([1] @ [2, 3, 4]) [(0, led_at 0 0 0), (5, led_at 10 0 0)] 0 =
     patch_missing [2, 3, 4] [(0, led_at 0 0 0), (5, led_at 10 0 0), (1, led_at 2 0 0)] 1
   \<and> find_nearest_prev_led [(0, led_at 0 0 0), (5, led_at 10 0 0), (1, led_at 2 0 0)] 2 = Some 1
   \<and> find_nearest_prev_led [(0, led_at 0 0 0), (5, led_at 10 0 0)] 2 = Some 0"
proof -
  have "patch_missing [1] [(0, led_at 0 0 0), (5, led_at 10 0 0)] 0 =
      Inr ([(0, led_at 0 0 0), (5, led_at 10 0 0), (1, led_at 2 0 0)], 1)"
    by (simp add: eval_simps)
  moreover have "patch_missing ([1] @ [2, 3, 4]) [(0, led_at 0 0 0), (5, led_at 10 0 0)] 0 =
     (case patch_missing [1] [(0, led_at 0 0 0), (5, led_at 10 0 0)] 0 of
        Inl e \<Rightarrow> Inl e
      | Inr (leds', n') \<Rightarrow> patch_missing [2, 3, 4] leds' n')"
    using intra_iteration_propagation by blast
  ultimately show ?thesis
    by (simp add: find_nearest_prev_led_def)
qed

text \<open>
  Claim C3. In an iteration whose pass runs (the loop condition holds and ids are
  missing), the pass patches no id if and only if every missing id is below every key or
  above every key, and if and only if the loop ends in this iteration by the second
  \<open>break\<close>: the dictionary is returned as it is, as a normal result, and the warning with
  the number of missing ids is printed. For a whole run: it always returns a normal
  result; it ends by that \<open>break\<close> (the state STALLED) exactly when the warning is among
  the printed lines, and then ids are missing from the returned dictionary, all of them
  outside the span of its keys, the warning names their number, and a pass over them
  patches nothing.
\<close>

theorem stalled_iff_nothing_patched:
  "(int (length leds) < total_leds \<and> iteration < max_iterations
      \<and> find_missing_ids leds total_leds \<noteq> [] \<longrightarrow>
      (\<exists>leds' patched.
          patch_missing (find_missing_ids leds total_leds) leds 0 = Inr (leds', patched)
        \<and> (patched = 0 \<longleftrightarrow>
             (\<forall>i \<in> set (find_missing_ids leds total_leds). outside_span leds i))
        \<and> (patched = 0 \<longleftrightarrow>
             patch_loop total_leds max_iterations iteration leds out =
               Inr \<lparr> final_leds = leds, iterations = iteration + 1,
                     exit_taken = Break_nothing_patched,
                     printed = out @
                       [Could_not_patch (int (length (find_missing_ids leds total_leds)))] \<rparr>)))
   \<and> (\<exists>r. patch_leds rows total_leds max_iterations = Inr r
        \<and> (terminal_state total_leds r = STALLED \<longleftrightarrow> exit_taken r = Break_nothing_patched)
        \<and> (terminal_state total_leds r = STALLED \<longleftrightarrow>
             (\<exists>n. Could_not_patch n \<in> set (printed r)))
        \<and> (terminal_state total_leds r = STALLED \<longrightarrow>
             find_missing_ids (final_leds r) total_leds \<noteq> []
           \<and> (\<forall>i \<in> set (find_missing_ids (final_leds r) total_leds).
                 outside_span (final_leds r) i)
           \<and> Could_not_patch (int (length (find_missing_ids (final_leds r) total_leds)))
               \<in> set (printed r)
           \<and> patch_missing (find_missing_ids (final_leds r) total_leds) (final_leds r) 0 =
               Inr (final_leds r, 0)))"
proof (intro conjI impI)
  assume "int (length leds) < total_leds \<and> iteration < max_iterations
      \<and> find_missing_ids leds total_leds \<noteq> []"
  then have g: "int (length leds) < total_leds" "iteration < max_iterations"
      "find_missing_ids leds total_leds \<noteq> []"
    by simp_all
  from patch_loop_iteration [OF g, of out]
  show "\<exists>leds' patched.
          patch_missing (find_missing_ids leds total_leds) leds 0 = Inr (leds', patched)
        \<and> (patched = 0 \<longleftrightarrow>
             (\<forall>i \<in> set (find_missing_ids leds total_leds). outside_span leds i))
        \<and> (patched = 0 \<longleftrightarrow>
             patch_loop total_leds max_iterations iteration leds out =
               Inr \<lparr> final_leds = leds, iterations = iteration + 1,
                     exit_taken = Break_nothing_patched,
                     printed = out @
                       [Could_not_patch (int (length (find_missing_ids leds total_leds)))] \<rparr>)"
    by blast
next
  have st: "\<And>r. terminal_state total_leds r = STALLED \<longleftrightarrow> exit_taken r = Break_nothing_patched"
    by (simp add: terminal_state_def split: loop_exit.splits)
  from patch_leds_printed [of rows total_leds max_iterations]
  show "\<exists>r. patch_leds rows total_leds max_iterations = Inr r
        \<and> (terminal_state total_leds r = STALLED \<longleftrightarrow> exit_taken r = Break_nothing_patched)
        \<and> (terminal_state total_leds r = STALLED \<longleftrightarrow>
             (\<exists>n. Could_not_patch n \<in> set (printed r)))
        \<and> (terminal_state total_leds r = STALLED \<longrightarrow>
             find_missing_ids (final_leds r) total_leds \<noteq> []
           \<and> (\<forall>i \<in> set (find_missing_ids (final_leds r) total_leds).
                 outside_span (final_leds r) i)
           \<and> Could_not_patch (int (length (find_missing_ids (final_leds r) total_leds)))
               \<in> set (printed r)
           \<and> patch_missing (find_missing_ids (final_leds r) total_leds) (final_leds r) 0 =
               Inr (final_leds r, 0))"
    unfolding st by blast
qed

theorem stalled_iff_nothing_patched_witness:
  "int (length [(2::int, led_at 0 0 0), (4, led_at 10 0 0), (3, led_at 5 0 0)]) < 5
   \<and> (1::int) < 1000
   \<and> find_missing_ids [(2, led_at 0 0 0), (4, led_at 10 0 0), (3, led_at 5 0 0)] 5 = [0, 1]
   \<and> outside_span [(2, led_at 0 0 0), (4, led_at 10 0 0), (3, led_at 5 0 0)] 0
   \<and> outside_span [(2, led_at 0 0 0), (4, led_at 10 0 0), (3, led_at 5 0 0)] 1
   \<and> patch_missing [0, 1] [(2, led_at 0 0 0), (4, led_at 10 0 0), (3, led_at 5 0 0)] 0 =
       Inr ([(2, led_at 0 0 0), (4, led_at 10 0 0), (3, led_at 5 0 0)], 0)
   \<and> patch_loop 5 1000 1 [(2, led_at 0 0 0), (4, led_at 10 0 0), (3, led_at 5 0 0)] [] =
       Inr \<lparr> final_leds = [(2, led_at 0 0 0), (4, led_at 10 0 0), (3, led_at 5 0 0)],
             iterations = 2, exit_taken = Break_nothing_patched,
             printed = [Could_not_patch 2] \<rparr>
   \<and> patch_leds [row_at 2 0 0 0, row_at 4 10 0 0] 5 1000 =
     Inr \<lparr> final_leds = [(2, led_at 0 0 0), (4, led_at 10 0 0), (3, led_at 5 0 0)],
           iterations = 2, exit_taken = Break_nothing_patched,
           printed = [Loaded 2, Target 5, Iteration_patched 1 1 3 5, Could_not_patch 2,
                      Only_patched 3 5] \<rparr>
   \<and> terminal_state 5
       \<lparr> final_leds = [(2, led_at 0 0 0), (4, led_at 10 0 0), (3, led_at 5 0 0)],
         iterations = 2, exit_taken = Break_nothing_patched,
         printed = [Loaded 2, Target 5, Iteration_patched 1 1 3 5, Could_not_patch 2,
                    Only_patched 3 5] \<rparr> = STALLED"
  using stalled_iff_nothing_patched [of "[(2, led_at 0 0 0), (4, led_at 10 0 0), (3, led_at 5 0 0)]"
      5 1 1000 "[]" "[row_at 2 0 0 0, row_at 4 10 0 0]"]
  by (simp add: eval_simps outside_span_def terminal_state_def)

text \<open>
  Claim C5. Every run returns (the loop is a total function, each iteration increases
  the counter towards the cap) and raises no exception. A pass patches as many ids
  as there are interior gaps at its start, and the missing ids afterwards are those of
  the start without the interior gaps, so a pass that patches some id leaves fewer
  missing ids. From a state where every missing id is outside the span of the keys the
  loop returns the dictionary as it is after at most one more iteration, and from a state
  at the cap it returns at once; from any state it returns after at most two iterations.
\<close>

theorem patch_loop_terminates_and_shrinks:
  "(\<exists>r. patch_leds rows total_leds max_iterations = Inr r)
   \<and> (\<exists>r. patch_loop total_leds max_iterations iteration leds out = Inr r
        \<and> iteration \<le> iterations r \<and> iterations r \<le> iteration + 2)
   \<and> (\<exists>leds' patched.
          patch_missing (find_missing_ids leds total_leds) leds 0 = Inr (leds', patched)
        \<and> patched = int (card {i. interior_gap leds total_leds i})
        \<and> set (find_missing_ids leds' total_leds) =
            set (find_missing_ids leds total_leds) - {i. interior_gap leds total_leds i}
        \<and> int (length (find_missing_ids leds' total_leds)) =
            int (length (find_missing_ids leds total_leds)) - patched
        \<and> (0 < patched \<longrightarrow>
             length (find_missing_ids leds' total_leds)
               < length (find_missing_ids leds total_leds)))
   \<and> ((\<forall>i \<in> set (find_missing_ids leds total_leds). outside_span leds i) \<longrightarrow>
        (\<exists>r. patch_loop total_leds max_iterations iteration leds out = Inr r
          \<and> final_leds r = leds \<and> iterations r \<le> iteration + 1))
   \<and> (max_iterations \<le> iteration \<longrightarrow>
        patch_loop total_leds max_iterations iteration leds out =
          Inr \<lparr> final_leds = leds, iterations = iteration,
                exit_taken = Condition_false, printed = out \<rparr>)"
proof (intro conjI impI)
  show "\<exists>r. patch_leds rows total_leds max_iterations = Inr r"
    using patch_leds_result [of rows total_leds max_iterations] by blast
next
  show "\<exists>r. patch_loop total_leds max_iterations iteration leds out = Inr r
        \<and> iteration \<le> iterations r \<and> iterations r \<le> iteration + 2"
    using patch_loop_result [of total_leds max_iterations iteration leds out] by blast
next
  from pass_shrinks_missing [of leds total_leds] obtain leds' patched where
    p: "patch_missing (find_missing_ids leds total_leds) leds 0 = Inr (leds', patched)"
    and c: "patched = int (card {i. interior_gap leds total_leds i})"
    and s: "set (find_missing_ids leds' total_leds) =
         set (find_missing_ids leds total_leds) - {i. interior_gap leds total_leds i}"
    and l: "int (length (find_missing_ids leds' total_leds)) =
         int (length (find_missing_ids leds total_leds)) - patched"
    by blast
  from l have "0 < patched \<longrightarrow>
      length (find_missing_ids leds' total_leds) < length (find_missing_ids leds total_leds)"
    by linarith
  with p c s l
  show "\<exists>leds' patched.
          patch_missing (find_missing_ids leds total_leds) leds 0 = Inr (leds', patched)
        \<and> patched = int (card {i. interior_gap leds total_leds i})
        \<and> set (find_missing_ids leds' total_leds) =
            set (find_missing_ids leds total_leds) - {i. interior_gap leds total_leds i}
        \<and> int (length (find_missing_ids leds' total_leds)) =
            int (length (find_missing_ids leds total_leds)) - patched
        \<and> (0 < patched \<longrightarrow>
             length (find_missing_ids leds' total_leds)
               < length (find_missing_ids leds total_leds))"
    by blast
next
  assume "\<forall>i \<in> set (find_missing_ids leds total_leds). outside_span leds i"
  then show "\<exists>r. patch_loop total_leds max_iterations iteration leds out = Inr r
          \<and> final_leds r = leds \<and> iterations r \<le> iteration + 1"
    by (rule patch_loop_only_edge_gaps)
next
  assume "max_iterations \<le> iteration"
  then show "patch_loop total_leds max_iterations iteration leds out =
          Inr \<lparr> final_leds = leds, iterations = iteration,
                exit_taken = Condition_false, printed = out \<rparr>"
    by (rule patch_loop_at_cap)
qed

theorem patch_loop_terminates_and_shrinks_witness:
  "find_missing_ids [(2, led_at 0 0 0), (4, led_at 10 0 0)] 5 = [0, 1, 3]
   \<and> patch_missing [0, 1, 3] [(2, led_at 0 0 0), (4, led_at 10 0 0)] 0 =
       Inr ([(2, led_at 0 0 0), (4, led_at 10 0 0), (3, led_at 5 0 0)], 1)
   \<and> (0::int) < 1
   \<and> find_missing_ids [(2, led_at 0 0 0), (4, led_at 10 0 0), (3, led_at 5 0 0)] 5 = [0, 1]
   \<and> length [0::int, 1] < length [0::int, 1, 3]
   \<and> patch_loop 5 1 1 [(2, led_at 0 0 0), (4, led_at 10 0 0)] [] =
       Inr \<lparr> final_leds = [(2, led_at 0 0 0), (4, led_at 10 0 0)], iterations = 1,
             exit_taken = Condition_false, printed = [] \<rparr>
   \<and> (1::int) \<le> 1
   \<and> outside_span [(2, led_at 0 0 0), (4, led_at 10 0 0), (3, led_at 5 0 0)] 0
   \<and> outside_span [(2, led_at 0 0 0), (4, led_at 10 0 0), (3, led_at 5 0 0)] 1
   \<and> patch_loop 5 1000 1 [(2, led_at 0 0 0), (4, led_at 10 0 0), (3, led_at 5 0 0)] [] =
       Inr \<lparr> final_leds = [(2, led_at 0 0 0), (4, led_at 10 0 0), (3, led_at 5 0 0)],
             iterations = 2, exit_taken = Break_nothing_patched,
             printed = [Could_not_patch 2] \<rparr>"
  using
    patch_loop_terminates_and_shrinks [of "[]" 5 1 1 "[(2, led_at 0 0 0), (4, led_at 10 0 0)]" "[]"]
    patch_loop_terminates_and_shrinks [of "[]" 5 1000 1
      "[(2, led_at 0 0 0), (4, led_at 10 0 0), (3, led_at 5 0 0)]" "[]"]
  by (simp add: eval_simps outside_span_def)

text \<open>
  Claim C10. A pass puts every interior gap of its start into the dictionary and leaves
  only missing ids outside the span of the keys; so every interior gap of the loaded
  dictionary is a key of the returned one when the first iteration runs, a run makes at
  most two iterations, and with a cap of at least two it never ends EXHAUSTED.
\<close>

theorem two_iterations_suffice:
  "(\<exists>leds' patched.
       patch_missing (find_missing_ids leds total_leds) leds 0 = Inr (leds', patched)
     \<and> (\<forall>i. interior_gap leds total_leds i \<longrightarrow> i \<in> existing_ids leds')
     \<and> (\<forall>i \<in> set (find_missing_ids leds' total_leds). outside_span leds' i))
   \<and> (\<exists>r. patch_leds rows total_leds max_iterations = Inr r
        \<and> (int (length (load_leds_from_csv rows)) < total_leds \<and> 0 < max_iterations \<longrightarrow>
             (\<forall>i. interior_gap (load_leds_from_csv rows) total_leds i \<longrightarrow>
                  i \<in> existing_ids (final_leds r)))
        \<and> 0 \<le> iterations r \<and> iterations r \<le> 2
        \<and> (2 \<le> max_iterations \<longrightarrow> terminal_state total_leds r \<noteq> EXHAUSTED))"
proof (intro conjI)
  show "\<exists>leds' patched.
       patch_missing (find_missing_ids leds total_leds) leds 0 = Inr (leds', patched)
     \<and> (\<forall>i. interior_gap leds total_leds i \<longrightarrow> i \<in> existing_ids leds')
     \<and> (\<forall>i \<in> set (find_missing_ids leds' total_leds). outside_span leds' i)"
    using pass_shrinks_missing [of leds total_leds] by blast
next
  let ?leds = "load_leds_from_csv rows"
  from patch_leds_result [of rows total_leds max_iterations] obtain r where
    r: "patch_leds rows total_leds max_iterations = Inr r"
    and ids: "existing_ids (final_leds r) =
         (if int (length ?leds) < total_leds \<and> 0 < max_iterations
          then existing_ids ?leds \<union> {i. interior_gap ?leds total_leds i} else existing_ids ?leds)"
    and its: "0 \<le> iterations r" "iterations r \<le> 2"
    and ex: "2 \<le> max_iterations \<longrightarrow> exit_taken r = Condition_false \<longrightarrow>
          total_leds \<le> int (length (final_leds r))"
    by blast
  have 1: "int (length ?leds) < total_leds \<and> 0 < max_iterations \<longrightarrow>
      (\<forall>i. interior_gap ?leds total_leds i \<longrightarrow> i \<in> existing_ids (final_leds r))"
    using ids by auto
  have 2: "2 \<le> max_iterations \<longrightarrow> terminal_state total_leds r \<noteq> EXHAUSTED"
    using ex by (auto simp: terminal_state_def split: loop_exit.splits)
  from r 1 2 its
  show "\<exists>r. patch_leds rows total_leds max_iterations = Inr r
        \<and> (int (length ?leds) < total_leds \<and> 0 < max_iterations \<longrightarrow>
             (\<forall>i. interior_gap ?leds total_leds i \<longrightarrow> i \<in> existing_ids (final_leds r)))
        \<and> 0 \<le> iterations r \<and> iterations r \<le> 2
        \<and> (2 \<le> max_iterations \<longrightarrow> terminal_state total_leds r \<noteq> EXHAUSTED)"
    by blast
qed

theorem two_iterations_suffice_witness:
  "load_leds_from_csv [row_at 2 0 0 0, row_at 4 10 0 0] =
       [(2, led_at 0 0 0), (4, led_at 10 0 0)]
   \<and> int (length [(2::int, led_at 0 0 0), (4, led_at 10 0 0)]) < 5 \<and> (0::int) < 2
   \<and> (2::int) \<le> 2
   \<and> interior_gap [(2, led_at 0 0 0), (4, led_at 10 0 0)] 5 3
   \<and> patch_missing (find_missing_ids [(2, led_at 0 0 0), (4, led_at 10 0 0)] 5)
         [(2, led_at 0 0 0), (4, led_at 10 0 0)] 0 =
       Inr ([(2, led_at 0 0 0), (4, led_at 10 0 0), (3, led_at 5 0 0)], 1)
   \<and> 3 \<in> existing_ids [(2, led_at 0 0 0), (4, led_at 10 0 0), (3, led_at 5 0 0)]
   \<and> patch_leds [row_at 2 0 0 0, row_at 4 10 0 0] 5 2 =
     Inr \<lparr> final_leds = [(2, led_at 0 0 0), (4, led_at 10 0 0), (3, led_at 5 0 0)],
           iterations = 2, exit_taken = Break_nothing_patched,
           printed = [Loaded 2, Target 5, Iteration_patched 1 1 3 5, Could_not_patch 2,
                      Only_patched 3 5] \<rparr>
   \<and> terminal_state 5
       \<lparr> final_leds = [(2, led_at 0 0 0), (4, led_at 10 0 0), (3, led_at 5 0 0)],
         iterations = 2, exit_taken = Break_nothing_patched,
         printed = [Loaded 2, Target 5, Iteration_patched 1 1 3 5, Could_not_patch 2,
                    Only_patched 3 5] \<rparr> = STALLED"
  using two_iterations_suffice [of "[(2, led_at 0 0 0), (4, led_at 10 0 0)]" 5
      "[row_at 2 0 0 0, row_at 4 10 0 0]" 2]
  by (simp add: eval_simps interior_gap_def has_both_neighbours_def terminal_state_def)

end
